theory Spec2Isabelle
  imports Complex_Main
begin

section \<open>Clock times (\<^verbatim>\<open>datetime.time\<close>) at minute granularity\<close>

text \<open>
  The program handles \<^verbatim>\<open>datetime.time\<close> values that it builds with
  \<^verbatim>\<open>strptime(s, "%H:%M").time()\<close> or \<^verbatim>\<open>time(h, m)\<close>: seconds and
  microseconds are always zero, so a time is its hour and its minute. Python's integers are
  unbounded, hence \<^typ>\<open>int\<close>.
\<close>

datatype py_error = TypeError | ValueError

record time =
  hour :: int
  minute :: int

definition valid_time :: "time \<Rightarrow> bool" where
  "valid_time t = (0 \<le> hour t \<and> hour t < 24 \<and> 0 \<le> minute t \<and> minute t < 60)"

text \<open>
  The constructor \<^verbatim>\<open>time(hour, minute)\<close> raises \<^verbatim>\<open>ValueError\<close> unless
  \<^verbatim>\<open>0 <= hour < 24\<close> and \<^verbatim>\<open>0 <= minute < 60\<close>.
\<close>

definition mk_time :: "int \<Rightarrow> int \<Rightarrow> py_error + time" where
  "mk_time h m =
     (if 0 \<le> h \<and> h < 24 \<and> 0 \<le> m \<and> m < 60 then Inr \<lparr>hour = h, minute = m\<rparr>
      else Inl ValueError)"

text \<open>
  Python orders two naive \<^verbatim>\<open>time\<close> objects as the tuples
  \<^verbatim>\<open>(hour, minute, second, microsecond)\<close>, that is lexicographically.
\<close>

definition time_lt :: "time \<Rightarrow> time \<Rightarrow> bool" where
  "time_lt a b = (hour a < hour b \<or> (hour a = hour b \<and> minute a < minute b))"

definition time_le :: "time \<Rightarrow> time \<Rightarrow> bool" where
  "time_le a b = (hour a < hour b \<or> (hour a = hour b \<and> minute a \<le> minute b))"

definition time_ge :: "time \<Rightarrow> time \<Rightarrow> bool" where
  "time_ge a b = time_le b a"

text \<open>The local helper \<^verbatim>\<open>time_to_minutes\<close> of \<^verbatim>\<open>shared/utils.py\<close>.\<close>

definition time_to_minutes :: "time \<Rightarrow> int" where
  "time_to_minutes t = hour t * 60 + minute t"

section \<open>\<^verbatim>\<open>shared/utils.py\<close>\<close>

subsection \<open>\<^verbatim>\<open>parse_time\<close>\<close>

text \<open>
  \<^verbatim>\<open>datetime.strptime(s, "%H:%M")\<close> accepts one or two digits for the hour (at most 23),
  a colon, and one or two digits for the minute (at most 59), and nothing else; on any other
  string it raises \<^verbatim>\<open>ValueError\<close>, which \<^verbatim>\<open>parse_time\<close> turns into
  \<^verbatim>\<open>None\<close>. Strings are ASCII here.
\<close>

definition digit_chars :: "(char \<times> int) list" where
  "digit_chars =
     [(CHR ''0'', 0), (CHR ''1'', 1), (CHR ''2'', 2), (CHR ''3'', 3), (CHR ''4'', 4),
      (CHR ''5'', 5), (CHR ''6'', 6), (CHR ''7'', 7), (CHR ''8'', 8), (CHR ''9'', 9)]"

fun number_of_digits :: "int \<Rightarrow> string \<Rightarrow> int option" where
  "number_of_digits acc [] = Some acc"
| "number_of_digits acc (c # cs) =
     (case map_of digit_chars c of
        None \<Rightarrow> None
      | Some d \<Rightarrow> number_of_digits (acc * 10 + d) cs)"

definition one_or_two_digits :: "string \<Rightarrow> int option" where
  "one_or_two_digits s =
     (if s = [] \<or> 2 < length s then None else number_of_digits 0 s)"

definition parse_time :: "string \<Rightarrow> time option" where
  "parse_time time_str =
     (let hs = takeWhile (\<lambda>c. c \<noteq> CHR '':'') time_str;
          rest = dropWhile (\<lambda>c. c \<noteq> CHR '':'') time_str
      in case rest of
           [] \<Rightarrow> None
         | _ # ms \<Rightarrow>
             (case (one_or_two_digits hs, one_or_two_digits ms) of
                (Some h, Some m) \<Rightarrow>
                  (if h < 24 \<and> m < 60 then Some \<lparr>hour = h, minute = m\<rparr> else None)
              | _ \<Rightarrow> None))"

subsection \<open>\<^verbatim>\<open>validate_times\<close>\<close>

text \<open>
  A \<^verbatim>\<open>time\<close> object is always true in a boolean context (Python 3.5 and later; the
  source's \<^verbatim>\<open>tuple[bool, str]\<close> annotations need 3.9), so \<^verbatim>\<open>not break_start\<close>
  holds exactly for \<^verbatim>\<open>None\<close>. The result is the pair
  \<^verbatim>\<open>(is_valid, error_message)\<close>.
\<close>

definition validate_times ::
  "time \<Rightarrow> time option \<Rightarrow> time option \<Rightarrow> time \<Rightarrow> bool \<times> string" where
  "validate_times work_start break_start break_end work_end =
     (if time_ge work_start work_end
        then (False, ''Work start time must be before work end time'')
      else if break_start = None \<and> break_end = None
        then (True, '''')
      else if (break_start \<noteq> None) \<noteq> (break_end \<noteq> None)
        then (False, ''Both break start and end times must be set'')
      else (case (break_start, break_end) of
              (Some bs, Some be) \<Rightarrow>
                (if time_ge bs be
                   then (False, ''Break start time must be before break end time'')
                 else if time_le bs work_start
                   then (False, ''Break cannot start before work starts'')
                 else if time_ge be work_end
                   then (False, ''Break cannot end after work ends'')
                 else (True, ''''))
            | _ \<Rightarrow> (True, '''')))"

subsection \<open>\<^verbatim>\<open>calculate_break_deduction\<close> and \<^verbatim>\<open>calculate_hours\<close>\<close>

definition calculate_break_deduction :: "time \<Rightarrow> time \<Rightarrow> int" where
  "calculate_break_deduction break_start break_end =
     (let break_duration = time_to_minutes break_end - time_to_minutes break_start
      in if break_duration \<le> 30 then 0 else 30)"

text \<open>
  \<^verbatim>\<open>round(x, ndigits)\<close> rounds to the nearest multiple of \<open>10\<^sup>-\<^sup>n\<close>, ties to the
  even one. Hours are modelled as exact rationals. For \<open>x = m / 60\<close> with \<open>m\<close> an integer,
  \<open>100 * x = 5 * m / 3\<close> has fractional part \<open>0\<close>, \<open>1/3\<close> or \<open>2/3\<close>, never near a tie, so
  the float that Python returns is the double nearest to the rational computed here.
\<close>

definition py_round :: "rat \<Rightarrow> nat \<Rightarrow> rat" where
  "py_round x ndigits =
     (let s = x * 10 ^ ndigits;
          f = \<lfloor>s\<rfloor>;
          r = s - of_int f;
          n = (if r < 1 / 2 then f
               else if 1 / 2 < r then f + 1
               else if even f then f else f + 1)
      in of_int n / 10 ^ ndigits)"

definition calculate_hours ::
  "time \<Rightarrow> time option \<Rightarrow> time option \<Rightarrow> time \<Rightarrow> rat \<times> int" where
  "calculate_hours work_start break_start break_end work_end =
     (let total_minutes = time_to_minutes work_end - time_to_minutes work_start
      in case (break_start, break_end) of
           (Some bs, Some be) \<Rightarrow>
             (let actual_break = time_to_minutes be - time_to_minutes bs;
                  break_deduction = calculate_break_deduction bs be
              in (py_round (of_int (total_minutes - actual_break) / 60) 2, break_deduction))
         | _ \<Rightarrow> (py_round (of_int total_minutes / 60) 2, 0))"

section \<open>\<^verbatim>\<open>painter_app/pages/daily_entry.py\<close>: the break suggestion\<close>

text \<open>
  \<^verbatim>\<open>//\<close> and \<^verbatim>\<open>%\<close> round towards minus infinity, as \<open>div\<close> and \<open>mod\<close> on
  \<^typ>\<open>int\<close> do. The two calls of the \<^verbatim>\<open>time\<close> constructor may raise.
\<close>

definition calculate_break_time ::
  "time \<Rightarrow> time \<Rightarrow> py_error + (time option \<times> time option)" where
  "calculate_break_time start_time end_time =
     (let start_minutes = hour start_time * 60 + minute start_time;
          end_minutes = hour end_time * 60 + minute end_time;
          total_minutes = end_minutes - start_minutes
      in if total_minutes < 360 then Inr (None, None)
         else
           (let mid_minutes = start_minutes + total_minutes div 2;
                break_start_minutes = mid_minutes - 30;
                break_end_minutes = mid_minutes + 30
            in case mk_time (break_start_minutes div 60) (break_start_minutes mod 60) of
                 Inl e \<Rightarrow> Inl e
               | Inr break_start \<Rightarrow>
                   (case mk_time (break_end_minutes div 60) (break_end_minutes mod 60) of
                      Inl e \<Rightarrow> Inl e
                    | Inr break_end \<Rightarrow> Inr (Some break_start, Some break_end))))"

section \<open>The durable row store\<close>

text \<open>
  The tables of the SQLite database, as lists of rows in insertion order. Times and dates are
  stored as text; a nullable column is an \<open>option\<close>.
\<close>

record location =
  loc_id :: int
  loc_user_id :: int
  loc_name :: string
  loc_address :: "string option"
  loc_active :: bool

record daily_entry =
  de_id :: int
  de_user_id :: int
  de_entry_date :: string
  de_start_time :: string
  de_end_time :: string
  de_break_start :: "string option"
  de_break_end :: "string option"
  de_updated_at :: string

record daily_location =
  dl_entry_id :: int
  dl_location_id :: int
  dl_sequence_order :: int

record db =
  locations :: "location list"
  daily_entries :: "daily_entry list"
  daily_locations :: "daily_location list"

text \<open>
  \<^verbatim>\<open>sqlite3.IntegrityError\<close> and every other \<^verbatim>\<open>sqlite3.Error\<close>, each with its
  message \<^verbatim>\<open>str(e)\<close>.
\<close>

datatype sqlite_error = IntegrityError string | OtherError string

text \<open>
  The file \<^verbatim>\<open>schema.sql\<close> is not among the sources. What the constraints of a table
  (NOT NULL, CHECK, UNIQUE and so on) make of a row about to be written, given the other
  rows of the table, is therefore a parameter: \<open>None\<close> when the row is accepted, the error
  that the statement raises otherwise. A statement that raises changes nothing.
\<close>

record schema =
  locations_constraint :: "location list \<Rightarrow> location \<Rightarrow> sqlite_error option"
  daily_entries_constraint :: "daily_entry list \<Rightarrow> daily_entry \<Rightarrow> sqlite_error option"
  daily_locations_constraint ::
    "daily_location list \<Rightarrow> daily_location \<Rightarrow> sqlite_error option"

text \<open>The server's \<^verbatim>\<open>DATE('now')\<close> and \<^verbatim>\<open>CURRENT_TIMESTAMP\<close>.\<close>

record clock =
  today :: string
  now :: string

subsection \<open>Connections and transactions\<close>

text \<open>
  A connection sees the stored database, or the working copy of its open transaction.
  \<^verbatim>\<open>commit\<close> stores the working copy, \<^verbatim>\<open>rollback\<close> drops it, and
  \<^verbatim>\<open>close\<close> drops it too: SQLite rolls back a transaction that is open when its
  connection is closed. What remains after \<open>close\<close> is the stored database.
\<close>

record connection =
  stored :: db
  pending :: "db option"

definition get_db_connection :: "db \<Rightarrow> connection" where
  "get_db_connection d = \<lparr>stored = d, pending = None\<rparr>"

definition current :: "connection \<Rightarrow> db" where
  "current c = (case pending c of None \<Rightarrow> stored c | Some w \<Rightarrow> w)"

definition begin_transaction :: "connection \<Rightarrow> connection" where
  "begin_transaction c = c\<lparr>pending := Some (current c)\<rparr>"

definition stage :: "connection \<Rightarrow> db \<Rightarrow> connection" where
  "stage c d = c\<lparr>pending := Some d\<rparr>"

definition commit :: "connection \<Rightarrow> connection" where
  "commit c = \<lparr>stored = current c, pending = None\<rparr>"

definition rollback :: "connection \<Rightarrow> connection" where
  "rollback c = c\<lparr>pending := None\<rparr>"

definition close :: "connection \<Rightarrow> db" where
  "close c = stored c"

subsection \<open>String helpers\<close>

text \<open>Python's \<^verbatim>\<open>sub in s\<close> on strings.\<close>

fun starts_with :: "string \<Rightarrow> string \<Rightarrow> bool" where
  "starts_with [] s = True"
| "starts_with (p # ps) [] = False"
| "starts_with (p # ps) (c # cs) = (p = c \<and> starts_with ps cs)"

fun contains :: "string \<Rightarrow> string \<Rightarrow> bool" where
  "contains sub [] = (sub = [])"
| "contains sub (c # cs) = (starts_with sub (c # cs) \<or> contains sub cs)"

text \<open>\<^verbatim>\<open>str(n)\<close> for an integer.\<close>

fun digits_of :: "nat \<Rightarrow> string" where
  "digits_of n =
     (if n < 10 then [''0123456789'' ! n]
      else digits_of (n div 10) @ [''0123456789'' ! (n mod 10)])"

declare digits_of.simps [simp del]

definition str_int :: "int \<Rightarrow> string" where
  "str_int i = (if i < 0 then CHR ''-'' # digits_of (nat (- i)) else digits_of (nat i))"

definition quote :: char where
  "quote = CHR 0x27"

text \<open>
  \<^verbatim>\<open>str.isalnum\<close> on ASCII characters, the other characters that
  \<^verbatim>\<open>sanitize_input\<close> keeps, and \<^verbatim>\<open>str.strip\<close>: after the filter the only
  white space left is the space. Python's \<^verbatim>\<open>isalnum\<close> also keeps letters and digits
  beyond ASCII; names with such characters are outside this model.
\<close>

definition alnum_chars :: string where
  "alnum_chars = ''abcdefghijklmnopqrstuvwxyzABCDEFGHIJKLMNOPQRSTUVWXYZ0123456789''"

definition isalnum :: "char \<Rightarrow> bool" where
  "isalnum c = (c \<in> set alnum_chars)"

definition strip :: "string \<Rightarrow> string" where
  "strip s = rev (dropWhile (\<lambda>c. c = CHR '' '') (rev (dropWhile (\<lambda>c. c = CHR '' '') s)))"

text \<open>SQLite's \<^verbatim>\<open>LOWER\<close> folds the ASCII letters only.\<close>

definition sql_lower :: "string \<Rightarrow> string" where
  "sql_lower s =
     map (\<lambda>c. case map_of (zip ''ABCDEFGHIJKLMNOPQRSTUVWXYZ'' ''abcdefghijklmnopqrstuvwxyz'') c of
                 None \<Rightarrow> c
               | Some l \<Rightarrow> l) s"

text \<open>
  A fresh \<^verbatim>\<open>INTEGER PRIMARY KEY\<close>: 1 in an empty table, otherwise one more than the
  largest in the table.
\<close>

definition next_rowid :: "int list \<Rightarrow> int" where
  "next_rowid ids = (case ids of [] \<Rightarrow> 1 | i # rest \<Rightarrow> fold max rest i + 1)"

section \<open>\<^verbatim>\<open>painter_app/pages/daily_entry.py\<close>: the repository operations\<close>

subsection \<open>\<^verbatim>\<open>sanitize_input\<close> and \<^verbatim>\<open>add_location\<close>\<close>

definition sanitize_input :: "string \<Rightarrow> nat \<Rightarrow> string" where
  "sanitize_input text max_length =
     (if text = [] then []
      else strip (take max_length
             (filter (\<lambda>c. isalnum c \<or> c \<in> set '' -_.,()#'') text)))"

definition count_user_locations :: "db \<Rightarrow> int \<Rightarrow> nat" where
  "count_user_locations d user_id =
     length (filter (\<lambda>l. loc_user_id l = user_id \<and> loc_active l) (locations d))"

text \<open>
  Modelled from the spec: the column defaults of the missing \<^verbatim>\<open>schema.sql\<close>. A
  location is active until it is soft-deleted, so a new row is active (the caller in
  \<^verbatim>\<open>main\<close> relies on it when it looks the new location up among the active ones);
  a new entry's \<^verbatim>\<open>updated_at\<close> is the current timestamp.
\<close>

definition default_active :: bool where
  "default_active = True"

definition default_updated_at :: "clock \<Rightarrow> string" where
  "default_updated_at clk = now clk"

text \<open>
  \<^verbatim>\<open>INSERT INTO locations (user_id, name, address)\<close>: the statement gives no
  \<^verbatim>\<open>active\<close>, the new row takes the column's default.
\<close>

definition insert_location ::
  "schema \<Rightarrow> connection \<Rightarrow> int \<Rightarrow> string \<Rightarrow> string option \<Rightarrow> sqlite_error + connection" where
  "insert_location sch c user_id name address =
     (let d = current c;
          row = \<lparr>loc_id = next_rowid (map loc_id (locations d)), loc_user_id = user_id,
                 loc_name = name, loc_address = address, loc_active = default_active\<rparr>
      in case locations_constraint sch (locations d) row of
           Some err \<Rightarrow> Inl err
         | None \<Rightarrow> Inr (stage c (d\<lparr>locations := locations d @ [row]\<rparr>)))"

definition add_location ::
  "schema \<Rightarrow> db \<Rightarrow> int \<Rightarrow> string \<Rightarrow> string option \<Rightarrow> (bool \<times> string) \<times> db" where
  "add_location sch d user_id name0 address0 =
     (if name0 = [] then ((False, ''Location name cannot be empty''), d)
      else
        (let name = sanitize_input name0 50
         in if name = [] then ((False, ''Location name contains no valid characters''), d)
            else
              (let address = (case address0 of
                                None \<Rightarrow> None
                              | Some a \<Rightarrow> if a = [] then Some a else Some (sanitize_input a 100));
                   conn = begin_transaction (get_db_connection d)
               in if \<exists>l \<in> set (locations (current conn)).
                       loc_user_id l = user_id \<and> sql_lower (loc_name l) = sql_lower name \<and>
                       loc_active l
                  then ((False, ''Location '' @ [quote] @ name @ [quote] @ '' already exists''),
                        close conn)
                  else if 100 \<le> count_user_locations (current conn) user_id
                  then ((False, ''Maximum number of locations (100) reached''), close conn)
                  else
                    (case insert_location sch conn user_id name address of
                       Inr conn' \<Rightarrow>
                         ((True, ''Location '' @ [quote] @ name @ [quote] @ '' added successfully''),
                          close (commit conn'))
                     | Inl (IntegrityError m) \<Rightarrow>
                         ((False, ''Database constraint violation''), close (rollback conn))
                     | Inl (OtherError m) \<Rightarrow>
                         ((False, ''Database error: '' @ m), close (rollback conn))))))"

subsection \<open>\<^verbatim>\<open>get_todays_entry\<close>\<close>

text \<open>
  The function returns a Python \<^verbatim>\<open>dict\<close>, here the list of its items; \<open>map_of\<close> is
  \<^verbatim>\<open>dict.get\<close>. The values are column values or, under \<^verbatim>\<open>'locations'\<close>, the
  list of the joined rows as dictionaries.
\<close>

datatype sqlval = SqlInt int | SqlText string | SqlNull

datatype pyval = Column sqlval | Rows "(string \<times> sqlval) list list"

definition text_or_null :: "string option \<Rightarrow> sqlval" where
  "text_or_null v = (case v of None \<Rightarrow> SqlNull | Some s \<Rightarrow> SqlText s)"

definition entry_locations :: "db \<Rightarrow> int \<Rightarrow> (string \<times> sqlval) list list" where
  "entry_locations d entry_id =
     concat (map (\<lambda>dl. map (\<lambda>l. [(''id'', SqlInt (loc_id l)), (''name'', SqlText (loc_name l)),
                                   (''address'', text_or_null (loc_address l)),
                                   (''sequence_order'', SqlInt (dl_sequence_order dl))])
                            (filter (\<lambda>l. loc_id l = dl_location_id dl) (locations d)))
                 (sort_key dl_sequence_order
                    (filter (\<lambda>dl. dl_entry_id dl = entry_id) (daily_locations d))))"

definition get_todays_entry :: "clock \<Rightarrow> db \<Rightarrow> int \<Rightarrow> (string \<times> pyval) list option" where
  "get_todays_entry clk d user_id =
     (case find (\<lambda>e. de_user_id e = user_id \<and> de_entry_date e = today clk) (daily_entries d) of
        None \<Rightarrow> None
      | Some entry \<Rightarrow>
          Some [(''id'', Column (SqlInt (de_id entry))),
                (''start_time'', Column (SqlText (de_start_time entry))),
                (''end_time'', Column (SqlText (de_end_time entry))),
                (''locations'', Rows (entry_locations d (de_id entry)))])"

subsection \<open>\<^verbatim>\<open>save_entry\<close>\<close>

text \<open>
  The verification query counts the rows of \<^verbatim>\<open>locations\<close> with
  \<^verbatim>\<open>id IN (...) AND active = 1\<close>: it filters on \<^verbatim>\<open>id\<close> and
  \<^verbatim>\<open>active\<close> and on nothing else.
\<close>

definition count_active_locations :: "db \<Rightarrow> int list \<Rightarrow> nat" where
  "count_active_locations d location_ids =
     length (filter (\<lambda>l. loc_id l \<in> set location_ids \<and> loc_active l) (locations d))"

text \<open>
  \<^verbatim>\<open>INSERT INTO daily_entries ... ON CONFLICT(user_id, entry_date) DO UPDATE ... RETURNING id\<close>.
  The conflict target is a unique index, so at most one row has the user and the date. A new
  row gets its \<^verbatim>\<open>updated_at\<close> from the column default.
\<close>

definition upsert_daily_entry ::
  "schema \<Rightarrow> clock \<Rightarrow> connection \<Rightarrow> int \<Rightarrow> string \<Rightarrow> string \<Rightarrow> string option \<Rightarrow>
   string option \<Rightarrow> sqlite_error + (int \<times> connection)" where
  "upsert_daily_entry sch clk c user_id start_time end_time break_start break_end =
     (let d = current c; rows = daily_entries d
      in case find (\<lambda>e. de_user_id e = user_id \<and> de_entry_date e = today clk) rows of
           None \<Rightarrow>
             (let row = \<lparr>de_id = next_rowid (map de_id rows), de_user_id = user_id,
                         de_entry_date = today clk, de_start_time = start_time,
                         de_end_time = end_time, de_break_start = break_start,
                         de_break_end = break_end,
                         de_updated_at = default_updated_at clk\<rparr>
              in case daily_entries_constraint sch rows row of
                   Some err \<Rightarrow> Inl err
                 | None \<Rightarrow> Inr (de_id row, stage c (d\<lparr>daily_entries := rows @ [row]\<rparr>)))
         | Some old \<Rightarrow>
             (let row = old\<lparr>de_start_time := start_time, de_end_time := end_time,
                            de_break_start := break_start, de_break_end := break_end,
                            de_updated_at := now clk\<rparr>
              in case daily_entries_constraint sch
                        (filter (\<lambda>e. de_id e \<noteq> de_id old) rows) row of
                   Some err \<Rightarrow> Inl err
                 | None \<Rightarrow>
                     Inr (de_id old,
                          stage c (d\<lparr>daily_entries :=
                                        map (\<lambda>e. if de_id e = de_id old then row else e) rows\<rparr>))))"

definition delete_daily_locations :: "connection \<Rightarrow> int \<Rightarrow> connection" where
  "delete_daily_locations c entry_id =
     (let d = current c
      in stage c (d\<lparr>daily_locations :=
                      filter (\<lambda>r. dl_entry_id r \<noteq> entry_id) (daily_locations d)\<rparr>))"

definition insert_daily_location ::
  "schema \<Rightarrow> connection \<Rightarrow> int \<Rightarrow> int \<Rightarrow> int \<Rightarrow> sqlite_error + connection" where
  "insert_daily_location sch c entry_id loc order =
     (let d = current c;
          row = \<lparr>dl_entry_id = entry_id, dl_location_id = loc, dl_sequence_order = order\<rparr>
      in case daily_locations_constraint sch (daily_locations d) row of
           Some err \<Rightarrow> Inl err
         | None \<Rightarrow> Inr (stage c (d\<lparr>daily_locations := daily_locations d @ [row]\<rparr>)))"

text \<open>
  How the function leaves a block early: it returned a value, or it raised a database error.
\<close>

datatype outcome = Returned "bool \<times> string" | Raised sqlite_error

text \<open>
  The loop \<^verbatim>\<open>for order, loc_id in enumerate(location_ids, 1)\<close> with its inner handler: a
  UNIQUE violation returns from the function, any other error is raised again. \<open>None\<close>
  means that the loop ran to its end.
\<close>

fun insert_new_locations ::
  "schema \<Rightarrow> connection \<Rightarrow> int \<Rightarrow> int \<Rightarrow> int list \<Rightarrow> outcome option \<times> connection" where
  "insert_new_locations sch c entry_id order [] = (None, c)"
| "insert_new_locations sch c entry_id order (loc # rest) =
     (case insert_daily_location sch c entry_id loc order of
        Inr c' \<Rightarrow> insert_new_locations sch c' entry_id (order + 1) rest
      | Inl (IntegrityError m) \<Rightarrow>
          (if contains ''UNIQUE constraint failed'' m
           then (Some (Returned (False, ''Location sequence order '' @ str_int order @
                                        '' is already used'')), c)
           else (Some (Raised (IntegrityError m)), c))
      | Inl (OtherError m) \<Rightarrow> (Some (Raised (OtherError m)), c))"

text \<open>The body of the inner \<^verbatim>\<open>try\<close>, from the upsert to the commit.\<close>

definition save_entry_transaction ::
  "schema \<Rightarrow> clock \<Rightarrow> connection \<Rightarrow> int \<Rightarrow> string \<Rightarrow> string \<Rightarrow> string option \<Rightarrow>
   string option \<Rightarrow> int list \<Rightarrow> outcome \<times> connection" where
  "save_entry_transaction sch clk c user_id start_time end_time break_start break_end
       location_ids =
     (case upsert_daily_entry sch clk c user_id start_time end_time break_start break_end of
        Inl err \<Rightarrow> (Raised err, c)
      | Inr (entry_id, c1) \<Rightarrow>
          (case insert_new_locations sch (delete_daily_locations c1 entry_id) entry_id 1
                  location_ids of
             (None, c3) \<Rightarrow> (Returned (True, ''Entry saved successfully''), commit c3)
           | (Some out, c3) \<Rightarrow> (out, c3)))"

text \<open>
  The handlers around it: a CHECK violation returns a message; every other database error
  reaches \<^verbatim>\<open>except sqlite3.Error\<close>, which rolls back. The \<^verbatim>\<open>finally\<close> clause
  closes the connection on every path.
\<close>

fun save_entry_handlers :: "outcome \<times> connection \<Rightarrow> (bool \<times> string) \<times> db" where
  "save_entry_handlers (Returned r, c) = (r, close c)"
| "save_entry_handlers (Raised (IntegrityError m), c) =
     (if contains ''CHECK constraint failed'' m
      then ((False, ''Invalid time values. Please check your entry''), close c)
      else ((False, ''Database error: '' @ m), close (rollback c)))"
| "save_entry_handlers (Raised (OtherError m), c) =
     ((False, ''Database error: '' @ m), close (rollback c))"

text \<open>
  \<^verbatim>\<open>parse_time(break_start) if break_start else None\<close>: \<^verbatim>\<open>None\<close> and the empty
  string are false.
\<close>

definition parse_optional :: "string option \<Rightarrow> time option" where
  "parse_optional s = (case s of None \<Rightarrow> None | Some t \<Rightarrow> if t = [] then None else parse_time t)"

text \<open>
  When \<^verbatim>\<open>parse_time\<close> gives \<^verbatim>\<open>None\<close> for the start or the end of work, the first
  comparison of \<^verbatim>\<open>validate_times\<close> raises \<^verbatim>\<open>TypeError\<close>, which
  \<^verbatim>\<open>save_entry\<close> does not catch. The result is the exception or the returned pair, with
  the stored database after the call.
\<close>

definition save_entry ::
  "schema \<Rightarrow> clock \<Rightarrow> db \<Rightarrow> int \<Rightarrow> string \<Rightarrow> string \<Rightarrow> string option \<Rightarrow> string option \<Rightarrow>
   int list \<Rightarrow> (py_error + bool \<times> string) \<times> db" where
  "save_entry sch clk d user_id start_time end_time break_start break_end location_ids =
     (case (parse_time start_time, parse_time end_time) of
        (Some work_start, Some work_end) \<Rightarrow>
          (case validate_times work_start (parse_optional break_start)
                  (parse_optional break_end) work_end of
             (False, error) \<Rightarrow> (Inr (False, error), d)
           | (True, _) \<Rightarrow>
               if location_ids = []
               then (Inr (False, ''At least one location must be selected''), d)
               else
                 (let conn = get_db_connection d
                  in if count_active_locations (current conn) location_ids
                          \<noteq> length location_ids
                     then (Inr (False,
                             ''One or more selected locations are inactive or do not exist''),
                           close conn)
                     else
                       (case save_entry_handlers
                               (save_entry_transaction sch clk (begin_transaction conn) user_id
                                  start_time end_time break_start break_end location_ids) of
                          (r, d') \<Rightarrow> (Inr r, d'))))
      | _ \<Rightarrow> (Inl TypeError, d))"

section \<open>The specification's reading\<close>

text \<open>
  The definitions of this section follow the words of the specification, not the code; the
  theorems below compare them with the functions above.
\<close>

subsection \<open>Validation rules in priority order\<close>

datatype rule = WorkOrder | BreakPair | BreakOrder | BreakAfterStart | BreakBeforeEnd

text \<open>
  \<open>WorkOrder\<close>: workStart \<open>\<ge>\<close> workEnd. \<open>BreakPair\<close>: exactly one of the break fields is
  set. \<open>BreakOrder\<close>: breakStart \<open>\<ge>\<close> breakEnd. \<open>BreakAfterStart\<close>: breakStart \<open>\<le>\<close>
  workStart. \<open>BreakBeforeEnd\<close>: breakEnd \<open>\<ge>\<close> workEnd. The last three compare break times
  and are violated only when both are present.
\<close>

fun violated :: "rule \<Rightarrow> time \<Rightarrow> time option \<Rightarrow> time option \<Rightarrow> time \<Rightarrow> bool" where
  "violated WorkOrder ws bs be we = time_ge ws we"
| "violated BreakPair ws bs be we = ((bs = None) \<noteq> (be = None))"
| "violated BreakOrder ws (Some b) (Some e) we = time_ge b e"
| "violated BreakAfterStart ws (Some b) (Some e) we = time_le b ws"
| "violated BreakBeforeEnd ws (Some b) (Some e) we = time_ge e we"
| "violated r ws bs be we = False"

fun reason :: "rule \<Rightarrow> string" where
  "reason WorkOrder = ''Work start time must be before work end time''"
| "reason BreakPair = ''Both break start and end times must be set''"
| "reason BreakOrder = ''Break start time must be before break end time''"
| "reason BreakAfterStart = ''Break cannot start before work starts''"
| "reason BreakBeforeEnd = ''Break cannot end after work ends''"

definition priority :: "rule list" where
  "priority = [WorkOrder, BreakPair, BreakOrder, BreakAfterStart, BreakBeforeEnd]"

definition first_violation ::
  "time \<Rightarrow> time option \<Rightarrow> time option \<Rightarrow> time \<Rightarrow> rule option" where
  "first_violation ws bs be we = find (\<lambda>r. violated r ws bs be we) priority"

definition spec_validate ::
  "time \<Rightarrow> time option \<Rightarrow> time option \<Rightarrow> time \<Rightarrow> bool \<times> string" where
  "spec_validate ws bs be we =
     (case first_violation ws bs be we of
        None \<Rightarrow> (True, '''')
      | Some r \<Rightarrow> (False, reason r))"

subsection \<open>Worked minutes, deduction and the workday midpoint\<close>

definition spec_total_minutes ::
  "time \<Rightarrow> time option \<Rightarrow> time option \<Rightarrow> time \<Rightarrow> int" where
  "spec_total_minutes ws bs be we =
     (time_to_minutes we - time_to_minutes ws) -
     (case (bs, be) of
        (Some b, Some e) \<Rightarrow> time_to_minutes e - time_to_minutes b
      | _ \<Rightarrow> 0)"

definition spec_deduction :: "time option \<Rightarrow> time option \<Rightarrow> int" where
  "spec_deduction bs be =
     (case (bs, be) of
        (Some b, Some e) \<Rightarrow> (if 30 < time_to_minutes e - time_to_minutes b then 30 else 0)
      | _ \<Rightarrow> 0)"

definition midpoint :: "time \<Rightarrow> time \<Rightarrow> int" where
  "midpoint ws we =
     time_to_minutes ws + (time_to_minutes we - time_to_minutes ws) div 2"

text \<open>Times used as concrete inputs below.\<close>

definition t0800 :: time where "t0800 = \<lparr>hour = 8, minute = 0\<rparr>"
definition t1200 :: time where "t1200 = \<lparr>hour = 12, minute = 0\<rparr>"
definition t1245 :: time where "t1245 = \<lparr>hour = 12, minute = 45\<rparr>"
definition t1300 :: time where "t1300 = \<lparr>hour = 13, minute = 0\<rparr>"
definition t1700 :: time where "t1700 = \<lparr>hour = 17, minute = 0\<rparr>"
definition t0700 :: time where "t0700 = \<lparr>hour = 7, minute = 0\<rparr>"
definition t1800 :: time where "t1800 = \<lparr>hour = 18, minute = 0\<rparr>"
definition t1400 :: time where "t1400 = \<lparr>hour = 14, minute = 0\<rparr>"
definition t1030 :: time where "t1030 = \<lparr>hour = 10, minute = 30\<rparr>"
definition t1130 :: time where "t1130 = \<lparr>hour = 11, minute = 30\<rparr>"

subsection \<open>Outcomes and messages of \<^verbatim>\<open>save_entry\<close>\<close>

text \<open>
  A call fails when it raises or returns \<^verbatim>\<open>False\<close> as its first component. The
  messages of the EmptyLocations and InvalidLocations errors are those of the source.
\<close>

definition failed :: "py_error + bool \<times> string \<Rightarrow> bool" where
  "failed r = (case r of Inl e \<Rightarrow> True | Inr (ok, msg) \<Rightarrow> \<not> ok)"

definition invalid_locations :: string where
  "invalid_locations = ''One or more selected locations are inactive or do not exist''"


section \<open>Example data\<close>

text \<open>
  Modelled from the spec: the table layout of its section 6 names one constraint that a
  write of these operations can meet, \<^verbatim>\<open>UNIQUE(entry_id, sequence_order)\<close> on
  \<^verbatim>\<open>daily_locations\<close>; the uniqueness of \<^verbatim>\<open>(user_id, entry_date)\<close> is the
  conflict target of the upsert.
\<close>

definition spec_schema :: schema where
  "spec_schema =
     \<lparr>locations_constraint = (\<lambda>rows r. None),
      daily_entries_constraint = (\<lambda>rows r. None),
      daily_locations_constraint = (\<lambda>rows r.
        if \<exists>x \<in> set rows. dl_entry_id x = dl_entry_id r \<and>
                           dl_sequence_order x = dl_sequence_order r
        then Some (IntegrityError
          ''UNIQUE constraint failed: daily_locations.entry_id, daily_locations.sequence_order'')
        else None)\<rparr>"

text \<open>
  A schema for exercising a failure in the middle of the transaction: its
  \<^verbatim>\<open>daily_locations\<close> table also has \<^verbatim>\<open>CHECK (sequence_order <= 2)\<close>.
\<close>

definition short_route_schema :: schema where
  "short_route_schema =
     spec_schema\<lparr>daily_locations_constraint := (\<lambda>rows r.
        if 2 < dl_sequence_order r
        then Some (IntegrityError ''CHECK constraint failed: sequence_order <= 2'')
        else daily_locations_constraint spec_schema rows r)\<rparr>"

definition clock0 :: clock where
  "clock0 = \<lparr>today = ''2024-03-01'', now = ''2024-03-01 18:00:00''\<rparr>"

definition empty_db :: db where
  "empty_db = \<lparr>locations = [], daily_entries = [], daily_locations = []\<rparr>"

text \<open>The store after user 7 has added the location Kitchen to the empty store.\<close>

definition db_kitchen :: db where
  "db_kitchen =
     \<lparr>locations = [\<lparr>loc_id = 1, loc_user_id = 7, loc_name = ''Kitchen'', loc_address = None,
                     loc_active = True\<rparr>],
      daily_entries = [], daily_locations = []\<rparr>"

text \<open>
  Locations 3 and 5 belong to user 7, location 8 to user 9; user 7 has an entry for today
  with a break and the route 3, 5.
\<close>

definition db1 :: db where
  "db1 =
     \<lparr>locations =
        [\<lparr>loc_id = 3, loc_user_id = 7, loc_name = ''Kitchen'', loc_address = None,
          loc_active = True\<rparr>,
         \<lparr>loc_id = 5, loc_user_id = 7, loc_name = ''Garage'', loc_address = Some ''Main St 1'',
          loc_active = True\<rparr>,
         \<lparr>loc_id = 8, loc_user_id = 9, loc_name = ''Office'', loc_address = None,
          loc_active = True\<rparr>],
      daily_entries =
        [\<lparr>de_id = 1, de_user_id = 7, de_entry_date = ''2024-03-01'',
          de_start_time = ''08:00'', de_end_time = ''17:00'',
          de_break_start = Some ''12:00'', de_break_end = Some ''12:45'',
          de_updated_at = ''2024-03-01 09:00:00''\<rparr>],
      daily_locations =
        [\<lparr>dl_entry_id = 1, dl_location_id = 3, dl_sequence_order = 1\<rparr>,
         \<lparr>dl_entry_id = 1, dl_location_id = 5, dl_sequence_order = 2\<rparr>]\<rparr>"

section \<open>Facts about times\<close>

lemmas example_times =
  t0800_def t1200_def t1245_def t1300_def t1700_def t0700_def t1800_def
  t1400_def t1030_def t1130_def

lemma time_lt_minutes:
  "valid_time a \<Longrightarrow> valid_time b \<Longrightarrow> time_lt a b = (time_to_minutes a < time_to_minutes b)"
  unfolding valid_time_def time_lt_def time_to_minutes_def by auto

lemma time_ge_iff_not_lt: "time_ge a b = (\<not> time_lt a b)"
  unfolding time_ge_def time_le_def time_lt_def by auto

lemma time_lt_not_le: "time_lt a b \<Longrightarrow> \<not> time_le b a"
  unfolding time_le_def time_lt_def by auto

lemma minutes_range:
  "valid_time t \<Longrightarrow> 0 \<le> time_to_minutes t \<and> time_to_minutes t < 1440"
  unfolding valid_time_def time_to_minutes_def by simp

lemma div_mod_minutes:
  assumes "0 \<le> n" "n < 1440"
  shows "mk_time (n div 60) (n mod 60) = Inr \<lparr>hour = n div 60, minute = n mod 60\<rparr>"
proof -
  have "0 \<le> n div 60" "n div 60 < 24" using assms by presburger+
  then show ?thesis unfolding mk_time_def by simp
qed

lemma minutes_of_div_mod:
  "time_to_minutes \<lparr>hour = n div 60, minute = n mod 60\<rparr> = n"
  unfolding time_to_minutes_def by simp

lemma valid_div_mod:
  assumes "0 \<le> n" "n < 1440"
  shows "valid_time \<lparr>hour = n div 60, minute = n mod 60\<rparr>"
proof -
  have "0 \<le> n div 60" "n div 60 < 24" using assms by presburger+
  then show ?thesis unfolding valid_time_def by simp
qed

section \<open>Worked hours and break deduction\<close>

text \<open>
  Rounding \<open>m / 60\<close> hours to two decimals gives \<open>(10 m + 3) div 6\<close> hundredths: the
  nearest integer to \<open>5 m / 3\<close>, which is never half way between two integers.
\<close>

lemma py_round_minutes: "py_round (of_int m / 60) 2 = of_int ((10 * m + 3) div 6) / 100"
proof -
  define k where "k = 5 * m"
  define q where "q = k div 3"
  define j where "j = k mod 3"
  have kq: "k = 3 * q + j" by (simp add: q_def j_def)
  have s: "(of_int m / 60 :: rat) * 10 ^ 2 = of_int k / of_int 3"
    by (simp add: k_def)
  have f: "\<lfloor>(of_int k / of_int 3 :: rat)\<rfloor> = q"
    unfolding q_def by (rule floor_divide_of_int_eq)
  have r: "(of_int k / of_int 3 :: rat) - of_int q = of_int j / 3"
    by (simp add: kq field_simps)
  have j_cases: "j = 0 \<or> j = 1 \<or> j = 2"
    unfolding j_def by presburger
  have tgt: "(10 * m + 3) div 6 = (if j = 2 then q + 1 else q)"
    using j_cases kq unfolding k_def by presburger
  have n: "(if (of_int j / 3 :: rat) < 1 / 2 then q
            else if 1 / 2 < (of_int j / 3 :: rat) then q + 1
            else if even q then q else q + 1) = (if j = 2 then q + 1 else q)"
    using j_cases by auto
  show ?thesis
    unfolding py_round_def Let_def s f r n tgt by simp
qed

text \<open>
  C1. For all work and break times, in particular for every valid pair workStart < workEnd,
  \<open>calculate_hours\<close> returns the hours of \<open>(workEnd - workStart)\<close> minus the actual break
  duration when both break times are present (nothing is subtracted otherwise), rounded to
  two decimals, together with a deduction that is 0 when the break is absent or lasts at
  most 30 minutes and 30 when it lasts longer. The deduction is not subtracted from the
  worked minutes. The hours are a whole number of hundredths, the nearest to the exact
  quotient.
\<close>

theorem calculate_hours_spec:
  "calculate_hours ws bs be we =
     (py_round (of_int (spec_total_minutes ws bs be we) / 60) 2, spec_deduction bs be) \<and>
   fst (calculate_hours ws bs be we) =
     of_int ((10 * spec_total_minutes ws bs be we + 3) div 6) / 100"
proof -
  have eq: "calculate_hours ws bs be we =
     (py_round (of_int (spec_total_minutes ws bs be we) / 60) 2, spec_deduction bs be)"
    unfolding calculate_hours_def spec_total_minutes_def spec_deduction_def
      calculate_break_deduction_def Let_def
    by (cases bs; cases be) simp_all
  show ?thesis
    unfolding eq by (simp add: py_round_minutes)
qed

text \<open>
  The scenario of the specification: 08:00 to 17:00 with a break from 12:00 to 12:45 gives
  8.25 hours (495 minutes) and a deduction of 30.
\<close>

theorem calculate_hours_spec_witness:
  "time_lt t0800 t1700 \<and>
   spec_total_minutes t0800 (Some t1200) (Some t1245) t1700 = 495 \<and>
   calculate_hours t0800 (Some t1200) (Some t1245) t1700 = (33 / 4, 30)"
  using calculate_hours_spec [of t0800 "Some t1200" "Some t1245" t1700]
  by (simp add: example_times time_lt_def spec_total_minutes_def spec_deduction_def
      time_to_minutes_def py_round_def Let_def)

section \<open>Validation order\<close>

text \<open>
  C2. \<open>validate_times\<close> checks the five rules in the priority order workStart \<open>\<ge>\<close> workEnd,
  exactly one break field set, breakStart \<open>\<ge>\<close> breakEnd, breakStart \<open>\<le>\<close> workStart,
  breakEnd \<open>\<ge>\<close> workEnd: for every input its result is the reason of the first violated
  rule alone, or success when no rule is violated; with both break fields absent and
  workStart < workEnd it succeeds.
\<close>

theorem validate_times_first_violation:
  "validate_times ws bs be we = spec_validate ws bs be we \<and>
   (time_lt ws we \<longrightarrow> validate_times ws None None we = (True, ''''))"
  unfolding validate_times_def spec_validate_def first_violation_def priority_def
  by (cases bs; cases be) (simp_all add: time_ge_iff_not_lt)

text \<open>
  A break from 07:00 to 18:00 in a 08:00 to 17:00 day violates the last two rules; only the
  earlier one is reported. Without break fields the same day is valid.
\<close>

theorem validate_times_first_violation_witness:
  "violated BreakAfterStart t0800 (Some t0700) (Some t1800) t1700 \<and>
   violated BreakBeforeEnd t0800 (Some t0700) (Some t1800) t1700 \<and>
   validate_times t0800 (Some t0700) (Some t1800) t1700 =
     (False, ''Break cannot start before work starts'') \<and>
   time_lt t0800 t1700 \<and>
   validate_times t0800 None None t1700 = (True, '''')"
  using validate_times_first_violation [of t0800 "Some t0700" "Some t1800" t1700]
    validate_times_first_violation [of t0800 None None t1700]
  by (simp add: example_times spec_validate_def first_violation_def priority_def
      time_lt_def time_le_def time_ge_def)

section \<open>The suggested break window\<close>

lemma calculate_break_time_long:
  assumes ws: "valid_time ws" and we: "valid_time we"
    and long: "360 \<le> time_to_minutes we - time_to_minutes ws"
  shows "calculate_break_time ws we =
     Inr (Some \<lparr>hour = (midpoint ws we - 30) div 60, minute = (midpoint ws we - 30) mod 60\<rparr>,
          Some \<lparr>hour = (midpoint ws we + 30) div 60, minute = (midpoint ws we + 30) mod 60\<rparr>)"
proof -
  have a: "0 \<le> midpoint ws we - 30" "midpoint ws we - 30 < 1440"
    and b: "0 \<le> midpoint ws we + 30" "midpoint ws we + 30 < 1440"
    using minutes_range[OF ws] minutes_range[OF we] long unfolding midpoint_def by linarith+
  have "\<not> time_to_minutes we - time_to_minutes ws < 360" using long by simp
  then show ?thesis
    unfolding calculate_break_time_def Let_def
    by (simp add: div_mod_minutes[OF a] div_mod_minutes[OF b]
        time_to_minutes_def[symmetric] midpoint_def[symmetric])
qed

text \<open>
  C8. For all valid clock times workStart and workEnd, \<open>calculate_break_time\<close> returns
  \<open>(None, None)\<close> when workEnd - workStart is less than 360 minutes; otherwise it returns
  (without raising) a break that starts 30 minutes before and ends 30 minutes after the
  midpoint workStart + (workEnd - workStart) div 2, hence lasts exactly 60 minutes.
\<close>

theorem calculate_break_time_spec:
  assumes "valid_time ws" and "valid_time we"
  shows "if time_to_minutes we - time_to_minutes ws < 360
         then calculate_break_time ws we = Inr (None, None)
         else (\<exists>bs be. calculate_break_time ws we = Inr (Some bs, Some be) \<and>
                 valid_time bs \<and> valid_time be \<and>
                 time_to_minutes bs = midpoint ws we - 30 \<and>
                 time_to_minutes be = midpoint ws we + 30 \<and>
                 time_to_minutes be - time_to_minutes bs = 60)"
proof (cases "time_to_minutes we - time_to_minutes ws < 360")
  case True
  then show ?thesis
    unfolding calculate_break_time_def Let_def time_to_minutes_def by simp
next
  case False
  then have long: "360 \<le> time_to_minutes we - time_to_minutes ws" by simp
  have a: "0 \<le> midpoint ws we - 30" "midpoint ws we - 30 < 1440"
    and b: "0 \<le> midpoint ws we + 30" "midpoint ws we + 30 < 1440"
    using minutes_range[OF assms(1)] minutes_range[OF assms(2)] long
    unfolding midpoint_def by linarith+
  show ?thesis
    using False calculate_break_time_long[OF assms long]
      valid_div_mod[OF a] valid_div_mod[OF b]
    by (simp add: minutes_of_div_mod)
qed

theorem calculate_break_time_spec_witness:
  "valid_time t0800 \<and> valid_time t1700 \<and> valid_time t1300 \<and>
   midpoint t0800 t1700 = 750 \<and>
   calculate_break_time t0800 t1700 = Inr (Some t1200, Some t1300) \<and>
   calculate_break_time t0800 t1300 = Inr (None, None)"
proof -
  have v: "valid_time t0800" "valid_time t1700" "valid_time t1300"
    by (simp_all add: example_times valid_time_def)
  show ?thesis
    using v calculate_break_time_spec [OF v(1) v(2)] calculate_break_time_spec [OF v(1) v(3)]
    by (simp add: example_times midpoint_def time_to_minutes_def calculate_break_time_def
        mk_time_def)
qed

text \<open>
  C10. For every valid work window with workStart < workEnd and at least 360 minutes, the
  window that \<open>calculate_break_time\<close> suggests passes \<open>validate_times\<close>: it starts strictly
  after workStart, ends strictly before workEnd, and starts strictly before it ends.
\<close>

theorem suggested_break_passes_validation:
  assumes ws: "valid_time ws" and we: "valid_time we"
    and lt: "time_lt ws we"
    and long: "360 \<le> time_to_minutes we - time_to_minutes ws"
  shows "\<exists>bs be. calculate_break_time ws we = Inr (Some bs, Some be) \<and>
           validate_times ws (Some bs) (Some be) we = (True, '''') \<and>
           time_lt ws bs \<and> time_lt bs be \<and> time_lt be we"
proof -
  define bs where
    "bs = \<lparr>hour = (midpoint ws we - 30) div 60, minute = (midpoint ws we - 30) mod 60\<rparr>"
  define be where
    "be = \<lparr>hour = (midpoint ws we + 30) div 60, minute = (midpoint ws we + 30) mod 60\<rparr>"
  have a: "0 \<le> midpoint ws we - 30" "midpoint ws we - 30 < 1440"
    and b: "0 \<le> midpoint ws we + 30" "midpoint ws we + 30 < 1440"
    using minutes_range[OF ws] minutes_range[OF we] long unfolding midpoint_def by linarith+
  have vbs: "valid_time bs" and vbe: "valid_time be"
    unfolding bs_def be_def using valid_div_mod[OF a] valid_div_mod[OF b] by simp_all
  have mbs: "time_to_minutes bs = midpoint ws we - 30"
    and mbe: "time_to_minutes be = midpoint ws we + 30"
    unfolding bs_def be_def by (simp_all add: minutes_of_div_mod)
  have res: "calculate_break_time ws we = Inr (Some bs, Some be)"
    unfolding bs_def be_def by (rule calculate_break_time_long[OF ws we long])
  have o1: "time_lt ws bs"
    unfolding time_lt_minutes[OF ws vbs] mbs midpoint_def using long by linarith
  have o2: "time_lt bs be"
    unfolding time_lt_minutes[OF vbs vbe] mbs mbe by simp
  have o3: "time_lt be we"
    unfolding time_lt_minutes[OF vbe we] mbe midpoint_def using long by linarith
  have n1: "\<not> time_ge ws we" "\<not> time_ge bs be" "\<not> time_le bs ws" "\<not> time_ge be we"
    using lt o1 o2 o3 by (simp_all add: time_lt_not_le time_ge_def)
  have ok: "validate_times ws (Some bs) (Some be) we = (True, [])"
    unfolding validate_times_def using n1 by simp
  have "calculate_break_time ws we = Inr (Some bs, Some be) \<and>
        validate_times ws (Some bs) (Some be) we = (True, []) \<and>
        time_lt ws bs \<and> time_lt bs be \<and> time_lt be we"
    using res ok o1 o2 o3 by simp
  then show ?thesis by (intro exI)
qed

text \<open>
  The shortest window that gets a suggestion, 08:00 to 14:00, is offered 10:30 to 11:30,
  which validation accepts.
\<close>

theorem suggested_break_passes_validation_witness:
  "valid_time t0800 \<and> valid_time t1400 \<and> time_lt t0800 t1400 \<and>
   360 \<le> time_to_minutes t1400 - time_to_minutes t0800 \<and>
   calculate_break_time t0800 t1400 = Inr (Some t1030, Some t1130) \<and>
   validate_times t0800 (Some t1030) (Some t1130) t1400 = (True, [])"
proof -
  have v: "valid_time t0800" "valid_time t1400"
    by (simp_all add: example_times valid_time_def)
  have lt: "time_lt t0800 t1400"
    by (simp add: example_times time_lt_def)
  have long: "360 \<le> time_to_minutes t1400 - time_to_minutes t0800"
    by (simp add: example_times time_to_minutes_def)
  have res: "calculate_break_time t0800 t1400 = Inr (Some t1030, Some t1130)"
    by (simp add: example_times calculate_break_time_def mk_time_def)
  show ?thesis
    using v lt long res suggested_break_passes_validation [OF v lt long]
    by simp
qed

section \<open>Transactions of \<^verbatim>\<open>save_entry\<close>\<close>

lemma stored_stage: "stored (stage c d) = stored c"
  by (simp add: stage_def)

lemma stored_begin: "stored (begin_transaction c) = stored c"
  by (simp add: begin_transaction_def)

lemma stored_rollback: "stored (rollback c) = stored c"
  by (simp add: rollback_def)

lemma close_connection: "close (get_db_connection d) = d"
  by (simp add: close_def get_db_connection_def)

lemma current_connection: "current (get_db_connection d) = d"
  by (simp add: current_def get_db_connection_def)

lemma stored_upsert:
  "upsert_daily_entry sch clk c u st et bs be = Inr (i, c') \<Longrightarrow> stored c' = stored c"
  unfolding upsert_daily_entry_def Let_def
  by (auto simp: stored_stage split: option.splits)

lemma stored_delete: "stored (delete_daily_locations c i) = stored c"
  by (simp add: delete_daily_locations_def Let_def stored_stage)

lemma stored_insert:
  "insert_daily_location sch c e l k = Inr c' \<Longrightarrow> stored c' = stored c"
  unfolding insert_daily_location_def Let_def
  by (auto simp: stored_stage split: option.splits)

lemma stored_insert_new_locations:
  "stored (snd (insert_new_locations sch c e k ids)) = stored c"
proof (induction ids arbitrary: c k)
  case Nil
  show ?case by simp
next
  case (Cons loc rest)
  show ?case
  proof (cases "insert_daily_location sch c e loc k")
    case (Inr c')
    then show ?thesis using Cons.IH[of c' "k + 1"] stored_insert[OF Inr] by simp
  next
    case (Inl err)
    then show ?thesis by (cases err) simp_all
  qed
qed

lemma transaction_uncommitted:
  assumes t: "save_entry_transaction sch clk c u st et bs be ids = (out, c')"
    and h: "save_entry_handlers (out, c') = (r, d')"
    and f: "\<not> fst r"
  shows "d' = stored c"
proof (cases "upsert_daily_entry sch clk c u st et bs be")
  case (Inl err)
  then have "out = Raised err" "c' = c"
    using t by (simp_all add: save_entry_transaction_def)
  then show ?thesis
    using h by (cases err) (auto simp: stored_rollback close_def split: if_splits)
next
  case (Inr p)
  obtain i c1 where p: "p = (i, c1)" by (cases p)
  have s1: "stored c1 = stored c" using stored_upsert Inr p by simp
  define c2 where "c2 = delete_daily_locations c1 i"
  have s2: "stored c2 = stored c" by (simp add: c2_def stored_delete s1)
  obtain o3 c3 where l: "insert_new_locations sch c2 i 1 ids = (o3, c3)"
    by (cases "insert_new_locations sch c2 i 1 ids")
  have s3: "stored c3 = stored c"
    using stored_insert_new_locations[of sch c2 i 1 ids] l s2 by simp
  show ?thesis
  proof (cases o3)
    case None
    then have "out = Returned (True, ''Entry saved successfully'')"
      using t Inr p l by (simp add: save_entry_transaction_def c2_def)
    then show ?thesis using h f by auto
  next
    case (Some early)
    then have oc: "out = early" "c' = c3"
      using t Inr p l by (simp_all add: save_entry_transaction_def c2_def)
    show ?thesis
    proof (cases early)
      case (Returned r')
      then show ?thesis using oc h s3 by (auto simp: close_def)
    next
      case (Raised err)
      then show ?thesis
        using oc h s3 by (cases err) (auto simp: stored_rollback close_def split: if_splits)
    qed
  qed
qed

text \<open>
  C3. Every failing call of \<open>save_entry\<close> leaves the stored database as it was before the
  call: whether the call raises, fails time validation, is given an empty or an invalid
  location list, or meets a constraint violation or another database error in the middle of
  its transaction, for every schema. No partial entry and no partial sequence is stored.
\<close>

theorem save_entry_failure_leaves_store:
  assumes "failed (fst (save_entry sch clk d user_id st et bs be ids))"
  shows "snd (save_entry sch clk d user_id st et bs be ids) = d"
proof (cases "parse_time st")
  case None
  then show ?thesis by (simp add: save_entry_def)
next
  case ws: (Some work_start)
  show ?thesis
  proof (cases "parse_time et")
    case None
    then show ?thesis using ws by (simp add: save_entry_def)
  next
    case we: (Some work_end)
    obtain ok err where v:
      "validate_times work_start (parse_optional bs) (parse_optional be) work_end = (ok, err)"
      by (cases "validate_times work_start (parse_optional bs) (parse_optional be) work_end")
    show ?thesis
    proof (cases "ok \<and> ids \<noteq> [] \<and> count_active_locations d ids = length ids")
      case False
      then show ?thesis
        using ws we v
        by (cases ok) (auto simp: save_entry_def Let_def close_connection current_connection)
    next
      case True
      define c where "c = begin_transaction (get_db_connection d)"
      obtain out c' where t:
        "save_entry_transaction sch clk c user_id st et bs be ids = (out, c')"
        by (cases "save_entry_transaction sch clk c user_id st et bs be ids")
      obtain r d' where h: "save_entry_handlers (out, c') = (r, d')"
        by (cases "save_entry_handlers (out, c')")
      have res: "save_entry sch clk d user_id st et bs be ids = (Inr r, d')"
        using ws we v True t h
        by (simp add: save_entry_def Let_def current_connection c_def)
      have "\<not> fst r"
        using assms unfolding res failed_def by (cases r) simp
      then have "d' = stored c" by (rule transaction_uncommitted[OF t h])
      then show ?thesis
        by (simp add: res c_def stored_begin get_db_connection_def)
    qed
  qed
qed

text \<open>
  Under a schema that refuses a third position, the third insert of the route 5, 8, 3 fails
  after the entry was rewritten and the old route deleted in the transaction; the stored
  database is unchanged.
\<close>

theorem save_entry_failure_leaves_store_witness:
  "save_entry short_route_schema clock0 db1 7 ''09:00'' ''17:00'' None None [5, 8, 3] =
     (Inr (False, ''Invalid time values. Please check your entry''), db1) \<and>
   failed (Inr (False, ''Invalid time values. Please check your entry''))"
proof -
  have e: "fst (save_entry short_route_schema clock0 db1 7 ''09:00'' ''17:00'' None None
                  [5, 8, 3]) = Inr (False, ''Invalid time values. Please check your entry'')"
    by code_simp
  have f: "failed (fst (save_entry short_route_schema clock0 db1 7 ''09:00'' ''17:00'' None None
                          [5, 8, 3]))"
    unfolding e by (simp add: failed_def)
  show ?thesis
    using save_entry_failure_leaves_store [OF f] e f
    by (simp add: prod_eq_iff)
qed

section \<open>The location check of \<^verbatim>\<open>save_entry\<close>\<close>

lemma db1_primary_key: "distinct (map loc_id (locations db1))"
  by (simp add: db1_def)

lemma count_active_card:
  assumes pk: "distinct (map loc_id (locations d))"
  shows "count_active_locations d ids =
         card (loc_id ` {l \<in> set (locations d). loc_id l \<in> set ids \<and> loc_active l})"
proof -
  let ?Q = "\<lambda>l. loc_id l \<in> set ids \<and> loc_active l"
  have dist: "distinct (map loc_id (filter ?Q (locations d)))"
    using pk by (rule distinct_map_filter)
  have "count_active_locations d ids = length (map loc_id (filter ?Q (locations d)))"
    by (simp add: count_active_locations_def)
  also have "\<dots> = card (set (map loc_id (filter ?Q (locations d))))"
    using dist by (simp only: distinct_card)
  also have "set (map loc_id (filter ?Q (locations d))) =
             loc_id ` {l \<in> set (locations d). ?Q l}"
    by auto
  finally show ?thesis .
qed

lemma count_active_duplicates:
  assumes pk: "distinct (map loc_id (locations d))" and dup: "\<not> distinct ids"
  shows "count_active_locations d ids < length ids"
proof -
  have "loc_id ` {l \<in> set (locations d). loc_id l \<in> set ids \<and> loc_active l} \<subseteq> set ids"
    by auto
  then have "count_active_locations d ids \<le> card (set ids)"
    unfolding count_active_card[OF pk] by (intro card_mono) simp_all
  moreover have "card (set ids) < length ids"
    using dup card_distinct[of ids] card_length[of ids] by (cases "card (set ids) = length ids") auto
  ultimately show ?thesis by simp
qed

lemma count_active_all:
  assumes pk: "distinct (map loc_id (locations d))" and dist: "distinct ids"
    and act: "\<forall>i \<in> set ids. \<exists>l \<in> set (locations d). loc_id l = i \<and> loc_active l"
  shows "count_active_locations d ids = length ids"
proof -
  have "loc_id ` {l \<in> set (locations d). loc_id l \<in> set ids \<and> loc_active l} = set ids"
    using act by force
  then show ?thesis
    unfolding count_active_card[OF pk] using dist by (simp add: distinct_card)
qed

text \<open>
  C4, as the claim states it, fails: with the active locations 3 and 5 the list 3, 5, 3 is
  refused by the verification query, which counts two rows for three ids, and not by a
  collision of positions in the transaction. The transaction is never started; started on
  its own it would store the three rows at positions 1, 2, 3 without any collision.
\<close>

theorem save_entry_duplicate_ids_counterexample:
  "save_entry spec_schema clock0 db1 7 ''08:00'' ''17:00'' None None [3, 5, 3] =
     (Inr (False, ''One or more selected locations are inactive or do not exist''), db1) \<and>
   fst (save_entry spec_schema clock0 db1 7 ''08:00'' ''17:00'' None None [3, 5, 3]) \<noteq>
     Inr (False, ''Location sequence order 3 is already used'') \<and>
   fst (save_entry_transaction spec_schema clock0 (begin_transaction (get_db_connection db1)) 7
          ''08:00'' ''17:00'' None None [3, 5, 3]) = Returned (True, ''Entry saved successfully'')"
  by code_simp

text \<open>
  C4, amended. When the ids of the \<^verbatim>\<open>locations\<close> table are unique (its primary
  key), the time arguments pass validation and the location id list has a duplicate,
  \<open>save_entry\<close> fails at the verification step with the InvalidLocations message, before
  the transaction begins, and the stored database is unchanged: duplicates are never
  collapsed into a shorter sequence.
\<close>

theorem save_entry_duplicate_ids_rejected:
  assumes pk: "distinct (map loc_id (locations d))"
    and ws: "parse_time st = Some work_start" and we: "parse_time et = Some work_end"
    and ok: "fst (validate_times work_start (parse_optional bs) (parse_optional be) work_end)"
    and dup: "\<not> distinct ids"
  shows "save_entry sch clk d user_id st et bs be ids = (Inr (False, invalid_locations), d)"
proof -
  obtain err where v:
    "validate_times work_start (parse_optional bs) (parse_optional be) work_end = (True, err)"
    using ok by (cases "validate_times work_start (parse_optional bs) (parse_optional be) work_end") simp
  have ne: "ids \<noteq> []" using dup by auto
  have "count_active_locations d ids \<noteq> length ids"
    using count_active_duplicates[OF pk dup] by simp
  then show ?thesis
    using ws we v ne
    by (simp add: save_entry_def Let_def current_connection close_connection
        invalid_locations_def)
qed

theorem save_entry_duplicate_ids_rejected_witness:
  "distinct (map loc_id (locations db1)) \<and>
   parse_time ''08:00'' = Some t0800 \<and> parse_time ''17:00'' = Some t1700 \<and>
   fst (validate_times t0800 (parse_optional (Some ''12:00'')) (parse_optional (Some ''12:45''))
          t1700) \<and>
   \<not> distinct [5, 5 :: int] \<and>
   save_entry spec_schema clock0 db1 7 ''08:00'' ''17:00'' (Some ''12:00'') (Some ''12:45'') [5, 5] =
     (Inr (False, invalid_locations), db1)"
proof -
  have ws: "parse_time ''08:00'' = Some t0800" and we: "parse_time ''17:00'' = Some t1700"
    by (simp_all add: parse_time_def one_or_two_digits_def digit_chars_def example_times)
  have ok: "fst (validate_times t0800 (parse_optional (Some ''12:00''))
                   (parse_optional (Some ''12:45'')) t1700)"
    by code_simp
  have dup: "\<not> distinct [5, 5 :: int]" by simp
  show ?thesis
    using db1_primary_key ws we ok dup
      save_entry_duplicate_ids_rejected [OF db1_primary_key ws we ok dup, of spec_schema clock0 7]
    by simp
qed

lemma validate_times_not_invalid_locations:
  "validate_times a b c e \<noteq> (False, invalid_locations)"
  unfolding validate_times_def invalid_locations_def
  by (simp split: option.splits)

lemma insert_new_locations_not_invalid_locations:
  "fst (insert_new_locations sch c e k ids) \<noteq> Some (Returned (False, invalid_locations))"
proof (induction ids arbitrary: c k)
  case Nil
  show ?case by simp
next
  case (Cons loc rest)
  show ?case
  proof (cases "insert_daily_location sch c e loc k")
    case (Inr c')
    then show ?thesis using Cons.IH[of c' "k + 1"] by simp
  next
    case (Inl err)
    then show ?thesis by (cases err) (simp_all add: invalid_locations_def)
  qed
qed

lemma transaction_not_invalid_locations:
  "fst (save_entry_handlers (save_entry_transaction sch clk c u st et bs be ids))
     \<noteq> (False, invalid_locations)"
proof (cases "upsert_daily_entry sch clk c u st et bs be")
  case (Inl err)
  then show ?thesis
    by (cases err) (simp_all add: save_entry_transaction_def invalid_locations_def)
next
  case (Inr p)
  obtain i c1 where p: "p = (i, c1)" by (cases p)
  obtain o3 c3 where l:
    "insert_new_locations sch (delete_daily_locations c1 i) i 1 ids = (o3, c3)"
    by (cases "insert_new_locations sch (delete_daily_locations c1 i) i 1 ids")
  have n: "o3 \<noteq> Some (Returned (False, invalid_locations))"
    using insert_new_locations_not_invalid_locations[of sch "delete_daily_locations c1 i" i 1 ids] l
    by simp
  show ?thesis
  proof (cases o3)
    case None
    then show ?thesis using Inr p l by (simp add: save_entry_transaction_def)
  next
    case (Some early)
    show ?thesis
    proof (cases early)
      case (Returned r)
      then show ?thesis using Some Inr p l n by (simp add: save_entry_transaction_def)
    next
      case (Raised err)
      then show ?thesis
        using Some Inr p l
        by (cases err) (simp_all add: save_entry_transaction_def invalid_locations_def)
    qed
  qed
qed

text \<open>
  C9. The location check of \<open>save_entry\<close> looks at \<^verbatim>\<open>id\<close> and \<^verbatim>\<open>active\<close> only:
  its count does not change when the owners of the locations are changed in any way, and
  when the ids of the table are unique and the listed ids are distinct and each names an
  active location, whoever owns it, the count equals the length of the list and the call, for
  every caller, does not fail with InvalidLocations.
\<close>

theorem save_entry_ignores_location_owner:
  assumes pk: "distinct (map loc_id (locations d))" and dist: "distinct ids"
    and act: "\<forall>i \<in> set ids. \<exists>l \<in> set (locations d). loc_id l = i \<and> loc_active l"
  shows "count_active_locations
           (d\<lparr>locations := map (\<lambda>l. l\<lparr>loc_user_id := owner l\<rparr>) (locations d)\<rparr>) ids =
           count_active_locations d ids \<and>
         count_active_locations d ids = length ids \<and>
         fst (save_entry sch clk d user_id st et bs be ids) \<noteq> Inr (False, invalid_locations)"
proof -
  have own: "count_active_locations
           (d\<lparr>locations := map (\<lambda>l. l\<lparr>loc_user_id := owner l\<rparr>) (locations d)\<rparr>) ids =
           count_active_locations d ids"
    by (simp add: count_active_locations_def filter_map o_def)
  have cnt: "count_active_locations d ids = length ids"
    by (rule count_active_all[OF pk dist act])
  have "fst (save_entry sch clk d user_id st et bs be ids) \<noteq> Inr (False, invalid_locations)"
  proof (cases "parse_time st")
    case None
    then show ?thesis by (simp add: save_entry_def)
  next
    case ws: (Some work_start)
    show ?thesis
    proof (cases "parse_time et")
      case None
      then show ?thesis using ws by (simp add: save_entry_def)
    next
      case we: (Some work_end)
      obtain ok err where v:
        "validate_times work_start (parse_optional bs) (parse_optional be) work_end = (ok, err)"
        by (cases "validate_times work_start (parse_optional bs) (parse_optional be) work_end")
      show ?thesis
      proof (cases ok)
        case False
        then show ?thesis
          using ws we v validate_times_not_invalid_locations[of work_start "parse_optional bs"
              "parse_optional be" work_end]
          by (simp add: save_entry_def)
      next
        case True
        show ?thesis
        proof (cases "ids = []")
          case e: True
          then show ?thesis
            using ws we v True by (simp add: save_entry_def invalid_locations_def)
        next
          case ne: False
          define c where "c = begin_transaction (get_db_connection d)"
          obtain r d' where h:
            "save_entry_handlers (save_entry_transaction sch clk c user_id st et bs be ids)
               = (r, d')"
            by (cases "save_entry_handlers
                         (save_entry_transaction sch clk c user_id st et bs be ids)")
          have "r \<noteq> (False, invalid_locations)"
            using transaction_not_invalid_locations[of sch clk c user_id st et bs be ids] h
            by simp
          then show ?thesis
            using ws we v True ne cnt h
            by (simp add: save_entry_def Let_def current_connection c_def)
        qed
      qed
    qed
  qed
  with own cnt show ?thesis by simp
qed

text \<open>
  Location 8 belongs to user 9; user 7 saves the route 5, 8 successfully.
\<close>

theorem save_entry_ignores_location_owner_witness:
  "distinct (map loc_id (locations db1)) \<and> distinct [5, 8 :: int] \<and>
   map loc_user_id (filter (\<lambda>l. loc_id l = 8) (locations db1)) = [9] \<and>
   count_active_locations db1 [5, 8] = 2 \<and>
   fst (save_entry spec_schema clock0 db1 7 ''09:00'' ''17:00'' None None [5, 8]) =
     Inr (True, ''Entry saved successfully'') \<and>
   fst (save_entry spec_schema clock0 db1 7 ''09:00'' ''17:00'' None None [5, 8]) \<noteq>
     Inr (False, invalid_locations)"
proof -
  have dist: "distinct [5, 8 :: int]" by simp
  have act: "\<forall>i \<in> set [5, 8]. \<exists>l \<in> set (locations db1). loc_id l = i \<and> loc_active l"
    by (simp add: db1_def)
  have owner: "map loc_user_id (filter (\<lambda>l. loc_id l = 8) (locations db1)) = [9]"
    by (simp add: db1_def)
  have res: "fst (save_entry spec_schema clock0 db1 7 ''09:00'' ''17:00'' None None [5, 8]) =
     Inr (True, ''Entry saved successfully'')"
    by code_simp
  show ?thesis
    using db1_primary_key dist owner res
      save_entry_ignores_location_owner [OF db1_primary_key dist act,
        where sch = spec_schema and clk = clock0 and user_id = 7 and st = "''09:00''" and
          et = "''17:00''" and bs = None and be = None and owner = "\<lambda>l. 7"]
    by simp
qed

section \<open>Empty location lists\<close>




section \<open>Adding a location twice\<close>

lemma add_location_success:
  assumes "add_location sch d user_id name0 address0 = ((True, msg), d1)"
  shows "\<exists>row. d1 = d\<lparr>locations := locations d @ [row]\<rparr> \<and> loc_user_id row = user_id \<and>
               loc_name row = sanitize_input name0 50 \<and> loc_active row"
proof -
  define c where "c = begin_transaction (get_db_connection d)"
  have cur: "current c = d"
    by (simp add: c_def begin_transaction_def current_def get_db_connection_def)
  define address where
    "address = (case address0 of None \<Rightarrow> None
                | Some a \<Rightarrow> if a = [] then Some a else Some (sanitize_input a 100))"
  from assms obtain c' where
    ins: "insert_location sch c user_id (sanitize_input name0 50) address = Inr c'"
    and d1: "d1 = close (commit c')"
    unfolding add_location_def Let_def c_def[symmetric] address_def[symmetric]
    by (auto simp: cur split: if_splits sum.splits sqlite_error.splits)
  from ins obtain row where
    c': "c' = stage c (d\<lparr>locations := locations d @ [row]\<rparr>)"
    and row: "loc_user_id row = user_id" "loc_name row = sanitize_input name0 50"
      "loc_active row"
    unfolding insert_location_def Let_def cur
    by (auto simp: default_active_def split: option.splits)
  have "d1 = d\<lparr>locations := locations d @ [row]\<rparr>"
    by (simp add: d1 c' close_def commit_def current_def stage_def)
  with row show ?thesis by blast
qed

lemma add_location_duplicate:
  assumes "name0 \<noteq> []" and "sanitize_input name0 50 \<noteq> []"
    and "\<exists>l \<in> set (locations d). loc_user_id l = user_id \<and>
           sql_lower (loc_name l) = sql_lower (sanitize_input name0 50) \<and> loc_active l"
  shows "add_location sch d user_id name0 address0 =
           ((False, ''Location '' @ [quote] @ sanitize_input name0 50 @ [quote] @
                    '' already exists''), d)"
proof -
  have cur: "current (begin_transaction (get_db_connection d)) = d"
    by (simp add: begin_transaction_def current_def get_db_connection_def)
  have cl: "close (begin_transaction (get_db_connection d)) = d"
    by (simp add: begin_transaction_def close_def get_db_connection_def)
  show ?thesis
    unfolding add_location_def Let_def cur cl using assms by simp
qed

lemma sanitize_Kitchen: "sanitize_input ''Kitchen'' 50 = ''Kitchen''"
  by (simp add: sanitize_input_def isalnum_def alnum_chars_def strip_def)

lemma sanitize_kitchen: "sanitize_input ''kitchen'' 50 = ''kitchen''"
  by (simp add: sanitize_input_def isalnum_def alnum_chars_def strip_def)

lemma lower_Kitchen: "sql_lower ''Kitchen'' = ''kitchen''"
  by (simp add: sql_lower_def)

lemma lower_kitchen: "sql_lower ''kitchen'' = ''kitchen''"
  by (simp add: sql_lower_def)

text \<open>
  C6. For every user, store and schema: after \<open>add_location\<close> has succeeded with the name
  Kitchen, \<open>add_location\<close> for the same user with the name kitchen fails with the
  DuplicateName message and leaves the store, hence the user's count of active locations,
  unchanged.
\<close>

theorem add_location_case_insensitive_duplicate:
  assumes first: "add_location sch d user_id ''Kitchen'' address1 = ((True, msg), d1)"
  shows "add_location sch d1 user_id ''kitchen'' address2 =
           ((False, ''Location '' @ [quote] @ ''kitchen'' @ [quote] @ '' already exists''), d1) \<and>
         count_user_locations (snd (add_location sch d1 user_id ''kitchen'' address2)) user_id =
           count_user_locations d1 user_id"
proof -
  from add_location_success[OF first] obtain row where
    d1: "d1 = d\<lparr>locations := locations d @ [row]\<rparr>"
    and row: "loc_user_id row = user_id" "loc_name row = ''Kitchen''" "loc_active row"
    by (auto simp: sanitize_Kitchen)
  have "row \<in> set (locations d1)" by (simp add: d1)
  then have dup: "\<exists>l \<in> set (locations d1). loc_user_id l = user_id \<and>
      sql_lower (loc_name l) = sql_lower (sanitize_input ''kitchen'' 50) \<and> loc_active l"
    using row by (intro bexI[of _ row]) (simp_all add: sanitize_kitchen lower_Kitchen lower_kitchen)
  have "add_location sch d1 user_id ''kitchen'' address2 =
          ((False, ''Location '' @ [quote] @ ''kitchen'' @ [quote] @ '' already exists''), d1)"
    using add_location_duplicate[OF _ _ dup, of sch address2]
    by (simp add: sanitize_kitchen)
  then show ?thesis by simp
qed

lemma add_Kitchen_empty:
  "add_location spec_schema empty_db 7 ''Kitchen'' None =
     ((True, ''Location '' @ [quote] @ ''Kitchen'' @ [quote] @ '' added successfully''),
      db_kitchen)"
  by (simp add: add_location_def sanitize_Kitchen Let_def begin_transaction_def
      get_db_connection_def current_def empty_db_def count_user_locations_def
      insert_location_def spec_schema_def next_rowid_def stage_def commit_def close_def
      db_kitchen_def default_active_def)

theorem add_location_case_insensitive_duplicate_witness:
  "add_location spec_schema empty_db 7 ''Kitchen'' None =
     ((True, ''Location '' @ [quote] @ ''Kitchen'' @ [quote] @ '' added successfully''),
      db_kitchen) \<and>
   add_location spec_schema db_kitchen 7 ''kitchen'' (Some ''Main St 1'') =
     ((False, ''Location '' @ [quote] @ ''kitchen'' @ [quote] @ '' already exists''),
      db_kitchen) \<and>
   count_user_locations db_kitchen 7 = 1"
  using add_location_case_insensitive_duplicate [OF add_Kitchen_empty, of "Some ''Main St 1''"]
    add_Kitchen_empty
  by (simp add: count_user_locations_def db_kitchen_def)

section \<open>Today's entry\<close>

lemma get_todays_entry_keys:
  assumes "get_todays_entry clk d user_id = Some e"
  shows "map fst e = [''id'', ''start_time'', ''end_time'', ''locations'']"
  using assms unfolding get_todays_entry_def by (auto split: option.splits)

text \<open>
  C5. The entry that \<open>get_todays_entry\<close> returns has the keys \<^verbatim>\<open>id\<close>,
  \<^verbatim>\<open>start_time\<close>, \<^verbatim>\<open>end_time\<close> and \<^verbatim>\<open>locations\<close> only. For user 7,
  whose entry of today has a break from 12:00 to 12:45, the returned dictionary has no
  \<^verbatim>\<open>break_start\<close> and no \<^verbatim>\<open>break_end\<close>, although the query selects both
  columns and the caller reads them with \<^verbatim>\<open>existing_entry.get('break_start')\<close>.
\<close>

theorem get_todays_entry_omits_break_fields:
  "find (\<lambda>e. de_user_id e = 7 \<and> de_entry_date e = today clock0) (daily_entries db1) =
     Some \<lparr>de_id = 1, de_user_id = 7, de_entry_date = ''2024-03-01'',
           de_start_time = ''08:00'', de_end_time = ''17:00'',
           de_break_start = Some ''12:00'', de_break_end = Some ''12:45'',
           de_updated_at = ''2024-03-01 09:00:00''\<rparr> \<and>
   get_todays_entry clock0 db1 7 =
     Some [(''id'', Column (SqlInt 1)),
           (''start_time'', Column (SqlText ''08:00'')),
           (''end_time'', Column (SqlText ''17:00'')),
           (''locations'',
            Rows [[(''id'', SqlInt 3), (''name'', SqlText ''Kitchen''), (''address'', SqlNull),
                   (''sequence_order'', SqlInt 1)],
                  [(''id'', SqlInt 5), (''name'', SqlText ''Garage''),
                   (''address'', SqlText ''Main St 1''), (''sequence_order'', SqlInt 2)]])] \<and>
   map_option (\<lambda>e. map_of e ''break_start'') (get_todays_entry clock0 db1 7) = Some None \<and>
   map_option (\<lambda>e. map_of e ''break_end'') (get_todays_entry clock0 db1 7) = Some None"
  by code_simp

end
